theory Spec2Isabelle
  imports Main "HOL-Library.Word" "HOL-Library.Sublist" "HOL-Library.Multiset"
begin

section \<open>The Tendermint algorithm (consensus/tendermint/algorithm/tendermint.go)\<close>

text \<open>
  \<^verbatim>\<open>ValueID\<close> is \<^verbatim>\<open>[32]byte\<close> and \<^verbatim>\<open>NodeID\<close> is \<^verbatim>\<open>[20]byte\<close>: fixed-width
  values compared with \<^verbatim>\<open>==\<close>, modelled as words of 256 and 160 bits. \<^verbatim>\<open>NilValue\<close> is
  the zero value of the array type. Rounds are \<^verbatim>\<open>int64\<close>: 64-bit words read as two's
  complement, compared with the signed orders \<open><=s\<close> and \<open><s\<close>. \<^verbatim>\<open>Step\<close> is
  \<^verbatim>\<open>uint8\<close> with the three constants numbered by \<^verbatim>\<open>iota\<close>.
\<close>

type_synonym ValueID = "256 word"
type_synonym NodeID = "160 word"
type_synonym int64 = "64 word"
type_synonym uint64 = "64 word"
type_synonym Step = "8 word"

definition NilValue :: ValueID where
  "NilValue = 0"

definition Propose :: Step where
  "Propose = 0"

definition Prevote :: Step where
  "Prevote = 1"

definition Precommit :: Step where
  "Precommit = 2"

text \<open>\<^verbatim>\<open>func (s Step) In(steps ...Step) bool\<close>: the loop over the variadic arguments.\<close>

fun In :: "Step \<Rightarrow> Step list \<Rightarrow> bool" where
  "In s [] = False"
| "In s (st # steps) = (if s = st then True else In s steps)"

record Timeout =
  TimeoutType :: Step
  Delay :: uint64
  tHeight :: uint64
  tRound :: int64

record ConsensusMessage =
  MsgType :: Step
  Height :: uint64
  Round :: int64
  Value :: ValueID
  ValidRound :: int64

text \<open>
  The \<^verbatim>\<open>Oracle\<close> interface. A value of this record is the oracle as it answers during
  one call of the algorithm; a pointer argument that may be \<^verbatim>\<open>nil\<close> is an option, and
  \<^verbatim>\<open>Value()\<close> returns the error (as its text) or the value. The fields \<open>oHeight\<close> and
  \<open>oValue\<close> are the methods \<^verbatim>\<open>Height()\<close> and \<^verbatim>\<open>Value()\<close>.
\<close>

record Oracle =
  Valid :: "ValueID \<Rightarrow> bool"
  MatchingProposal :: "ConsensusMessage \<Rightarrow> ConsensusMessage option"
  PrevoteQThresh :: "int64 \<Rightarrow> ValueID option \<Rightarrow> bool"
  PrecommitQThresh :: "int64 \<Rightarrow> ValueID option \<Rightarrow> bool"
  FThresh :: "int64 \<Rightarrow> bool"
  Proposer :: "int64 \<Rightarrow> NodeID \<Rightarrow> bool"
  oHeight :: uint64
  oValue :: "string + ValueID"

text \<open>
  The \<^verbatim>\<open>Algorithm\<close> struct without its \<^verbatim>\<open>oracle\<close> field: the oracle is passed to
  every operation, so that its answers may differ from one call to the next.
\<close>

record Algorithm =
  nodeID :: NodeID
  round :: int64
  step :: Step
  lockedRound :: int64
  lockedValue :: ValueID
  validRound :: int64
  validValue :: ValueID
  line34Executed :: bool
  line36Executed :: bool
  line47Executed :: bool

text \<open>\<^verbatim>\<open>New\<close>: the fields that the composite literal leaves out are zero values.\<close>

definition New :: "NodeID \<Rightarrow> Algorithm" where
  "New n = \<lparr>nodeID = n, round = - 1, step = 0, lockedRound = - 1, lockedValue = NilValue,
     validRound = - 1, validValue = NilValue,
     line34Executed = False, line36Executed = False, line47Executed = False\<rparr>"

definition height :: "Oracle \<Rightarrow> Algorithm \<Rightarrow> uint64" where
  "height orc a = oHeight orc"

definition msg :: "Oracle \<Rightarrow> Algorithm \<Rightarrow> Step \<Rightarrow> ValueID \<Rightarrow> ConsensusMessage" where
  "msg orc a msgType v =
     \<lparr>MsgType = msgType, Height = height orc a, Round = round a, Value = v,
      ValidRound = (if step a = Propose then validRound a else 0)\<rparr>"

definition timeout :: "Oracle \<Rightarrow> Algorithm \<Rightarrow> Step \<Rightarrow> Timeout" where
  "timeout orc a timeoutType =
     \<lparr>TimeoutType = timeoutType, Delay = 1, tHeight = height orc a, tRound = round a\<rparr>"

text \<open>
  \<^verbatim>\<open>StartRound\<close> panics, or returns the updated algorithm with its three results
  (message, timeout, error). The panic carries the two rounds of its message, and comes
  with the algorithm as the panic leaves it.
\<close>

datatype panic = StartRoundPanic int64 int64

definition StartRound ::
  "Oracle \<Rightarrow> Algorithm \<Rightarrow> int64 \<Rightarrow>
     (panic \<times> Algorithm)
     + (Algorithm \<times> ConsensusMessage option \<times> Timeout option \<times> string option)" where
  "StartRound orc a rnd =
     (if rnd <=s round a then Inl (StartRoundPanic (round a) rnd, a)
      else
        let a1 = a\<lparr>line34Executed := False, line36Executed := False, line47Executed := False,
                   round := rnd, step := Propose\<rparr>
        in if Proposer orc rnd (nodeID a1) then
             (if validValue a1 \<noteq> NilValue
              then Inr (a1, Some (msg orc a1 Propose (validValue a1)), None, None)
              else (case oValue orc of
                      Inl err \<Rightarrow> Inr (a1, None, None, Some err)
                    | Inr v \<Rightarrow> Inr (a1, Some (msg orc a1 Propose v), None, None)))
           else Inr (a1, None, Some (timeout orc a1 Propose), None))"

record RoundChange =
  rcRound :: int64
  Decision :: "ConsensusMessage option"

text \<open>
  \<^verbatim>\<open>ReceiveMessage\<close> returns, with the updated algorithm, its three results and the upon
  rule that produced them: the source marks each branch with the line of the Tendermint
  paper it implements (\<^verbatim>\<open>// Line 22\<close>, ...), and \<open>fired\<close> records that mark.
  Each \<^verbatim>\<open>if\<close> of the function is a pair of definitions, its condition (\<open>cond22\<close>, ...)
  and its body (\<open>body22\<close>, ...), with the locals \<^verbatim>\<open>r\<close>, \<^verbatim>\<open>s\<close>, \<^verbatim>\<open>t\<close> and \<^verbatim>\<open>p\<close>
  written out (\<open>round a\<close>, \<open>step a\<close>, \<open>MsgType cm\<close>, \<open>MatchingProposal orc cm\<close>:
  all four are read before any assignment). A condition reads the matching proposal
  only after the test \<^verbatim>\<open>p != nil\<close>, as in the source.
\<close>

datatype upon = Line22 | Line28 | Line36 | Line44 | Line34 | Line49 | Line47 | Line55 | NoMatch

record Result =
  fired :: upon
  alg :: Algorithm
  roundChange :: "RoundChange option"
  message :: "ConsensusMessage option"
  scheduled :: "Timeout option"

definition cond22 :: "Algorithm \<Rightarrow> ConsensusMessage \<Rightarrow> bool" where
  "cond22 a cm \<longleftrightarrow>
     In (MsgType cm) [Propose] \<and> Round cm = round a \<and> ValidRound cm = - 1 \<and> step a = Propose"

text \<open>
  Go's \<^verbatim>\<open>&&\<close> binds tighter than \<^verbatim>\<open>||\<close>, as \<open>\<and>\<close> binds tighter than \<open>\<or>\<close>: the
  test of Line 22 is written without parentheses, as the source writes it.
\<close>

definition body22 :: "Oracle \<Rightarrow> Algorithm \<Rightarrow> ConsensusMessage \<Rightarrow> Result" where
  "body22 orc a cm =
     (let a1 = a\<lparr>step := Prevote\<rparr> in
      if Valid orc (Value cm) \<and> lockedRound a1 = - 1 \<or> lockedValue a1 = Value cm
      then \<lparr>fired = Line22, alg = a1, roundChange = None,
            message = Some (msg orc a1 Prevote (Value cm)), scheduled = None\<rparr>
      else \<lparr>fired = Line22, alg = a1, roundChange = None,
            message = Some (msg orc a1 Prevote NilValue), scheduled = None\<rparr>)"

definition cond28 :: "Oracle \<Rightarrow> Algorithm \<Rightarrow> ConsensusMessage \<Rightarrow> bool" where
  "cond28 orc a cm \<longleftrightarrow>
     (let p = MatchingProposal orc cm in
      In (MsgType cm) [Propose, Prevote] \<and> p \<noteq> None \<and> Round (the p) = round a
      \<and> PrevoteQThresh orc (ValidRound (the p)) (Some (Value (the p))) \<and> step a = Propose
      \<and> (0 <=s ValidRound (the p) \<and> ValidRound (the p) <s round a))"

definition body28 :: "Oracle \<Rightarrow> Algorithm \<Rightarrow> ConsensusMessage \<Rightarrow> Result" where
  "body28 orc a cm =
     (let p = MatchingProposal orc cm; a1 = a\<lparr>step := Prevote\<rparr> in
      if Valid orc (Value (the p))
         \<and> (lockedRound a1 <=s ValidRound (the p) \<or> lockedValue a1 = Value (the p))
      then \<lparr>fired = Line28, alg = a1, roundChange = None,
            message = Some (msg orc a1 Prevote (Value (the p))), scheduled = None\<rparr>
      else \<lparr>fired = Line28, alg = a1, roundChange = None,
            message = Some (msg orc a1 Prevote NilValue), scheduled = None\<rparr>)"

definition cond36 :: "Oracle \<Rightarrow> Algorithm \<Rightarrow> ConsensusMessage \<Rightarrow> bool" where
  "cond36 orc a cm \<longleftrightarrow>
     (let p = MatchingProposal orc cm in
      In (MsgType cm) [Propose, Prevote] \<and> p \<noteq> None \<and> Round (the p) = round a
      \<and> PrevoteQThresh orc (round a) (Some (Value (the p))) \<and> Valid orc (Value (the p))
      \<and> Prevote \<le> step a \<and> \<not> line36Executed a)"

definition body36 :: "Oracle \<Rightarrow> Algorithm \<Rightarrow> ConsensusMessage \<Rightarrow> Result" where
  "body36 orc a cm =
     (let p = MatchingProposal orc cm;
          a1 = a\<lparr>line36Executed := True\<rparr>;
          a2 = (if step a = Prevote
                then a1\<lparr>lockedValue := Value (the p), lockedRound := round a,
                        step := Precommit\<rparr>
                else a1);
          a3 = a2\<lparr>validValue := Value (the p), validRound := round a\<rparr>
      in \<lparr>fired = Line36, alg = a3, roundChange = None,
           message = Some (msg orc a3 Precommit (Value (the p))), scheduled = None\<rparr>)"

definition cond44 :: "Oracle \<Rightarrow> Algorithm \<Rightarrow> ConsensusMessage \<Rightarrow> bool" where
  "cond44 orc a cm \<longleftrightarrow>
     In (MsgType cm) [Prevote] \<and> Round cm = round a
     \<and> PrevoteQThresh orc (round a) (Some NilValue) \<and> step a = Prevote"

definition body44 :: "Oracle \<Rightarrow> Algorithm \<Rightarrow> ConsensusMessage \<Rightarrow> Result" where
  "body44 orc a cm =
     (let a1 = a\<lparr>step := Precommit\<rparr>
      in \<lparr>fired = Line44, alg = a1, roundChange = None,
           message = Some (msg orc a1 Precommit NilValue), scheduled = None\<rparr>)"

definition cond34 :: "Oracle \<Rightarrow> Algorithm \<Rightarrow> ConsensusMessage \<Rightarrow> bool" where
  "cond34 orc a cm \<longleftrightarrow>
     In (MsgType cm) [Prevote] \<and> Round cm = round a \<and> PrevoteQThresh orc (round a) None
     \<and> step a = Prevote \<and> \<not> line34Executed a"

definition body34 :: "Oracle \<Rightarrow> Algorithm \<Rightarrow> ConsensusMessage \<Rightarrow> Result" where
  "body34 orc a cm =
     (let a1 = a\<lparr>line34Executed := True\<rparr>
      in \<lparr>fired = Line34, alg = a1, roundChange = None, message = None,
           scheduled = Some (timeout orc a1 Prevote)\<rparr>)"

definition cond49 :: "Oracle \<Rightarrow> Algorithm \<Rightarrow> ConsensusMessage \<Rightarrow> bool" where
  "cond49 orc a cm \<longleftrightarrow>
     (let p = MatchingProposal orc cm in
      In (MsgType cm) [Propose, Precommit] \<and> p \<noteq> None
      \<and> PrecommitQThresh orc (Round (the p)) (Some (Value (the p))))"

definition body49 :: "Oracle \<Rightarrow> Algorithm \<Rightarrow> ConsensusMessage \<Rightarrow> Result" where
  "body49 orc a cm =
     (let p = MatchingProposal orc cm;
          a1 = (if Valid orc (Value (the p))
                then a\<lparr>lockedRound := - 1, lockedValue := NilValue,
                       validRound := - 1, validValue := NilValue\<rparr>
                else a)
      in \<lparr>fired = Line49, alg = a1,
           roundChange = Some \<lparr>rcRound = 0, Decision = p\<rparr>,
           message = None, scheduled = None\<rparr>)"

definition cond47 :: "Oracle \<Rightarrow> Algorithm \<Rightarrow> ConsensusMessage \<Rightarrow> bool" where
  "cond47 orc a cm \<longleftrightarrow>
     In (MsgType cm) [Precommit] \<and> Round cm = round a
     \<and> PrecommitQThresh orc (round a) None \<and> \<not> line47Executed a"

definition body47 :: "Oracle \<Rightarrow> Algorithm \<Rightarrow> ConsensusMessage \<Rightarrow> Result" where
  "body47 orc a cm =
     (let a1 = a\<lparr>line47Executed := True\<rparr>
      in \<lparr>fired = Line47, alg = a1, roundChange = None, message = None,
           scheduled = Some (timeout orc a1 Precommit)\<rparr>)"

definition cond55 :: "Oracle \<Rightarrow> Algorithm \<Rightarrow> ConsensusMessage \<Rightarrow> bool" where
  "cond55 orc a cm \<longleftrightarrow> round a <s Round cm \<and> FThresh orc (Round cm)"

definition body55 :: "Algorithm \<Rightarrow> ConsensusMessage \<Rightarrow> Result" where
  "body55 a cm =
     \<lparr>fired = Line55, alg = a,
      roundChange = Some \<lparr>rcRound = Round cm, Decision = None\<rparr>,
      message = None, scheduled = None\<rparr>"

definition ReceiveMessage :: "Oracle \<Rightarrow> Algorithm \<Rightarrow> ConsensusMessage \<Rightarrow> Result" where
  "ReceiveMessage orc a cm =
     (if cond22 a cm then body22 orc a cm
      else if cond28 orc a cm then body28 orc a cm
      else if cond36 orc a cm then body36 orc a cm
      else if cond44 orc a cm then body44 orc a cm
      else if cond34 orc a cm then body34 orc a cm
      else if cond49 orc a cm then body49 orc a cm
      else if cond47 orc a cm then body47 orc a cm
      else if cond55 orc a cm then body55 a cm
      else \<lparr>fired = NoMatch, alg = a, roundChange = None, message = None, scheduled = None\<rparr>)"

definition OnTimeoutPropose ::
  "Oracle \<Rightarrow> Algorithm \<Rightarrow> uint64 \<Rightarrow> int64 \<Rightarrow> Algorithm \<times> ConsensusMessage option" where
  "OnTimeoutPropose orc a h rnd =
     (if h = height orc a \<and> rnd = round a \<and> step a = Propose
      then (let a1 = a\<lparr>step := Prevote\<rparr> in (a1, Some (msg orc a1 Prevote NilValue)))
      else (a, None))"

definition OnTimeoutPrevote ::
  "Oracle \<Rightarrow> Algorithm \<Rightarrow> uint64 \<Rightarrow> int64 \<Rightarrow> Algorithm \<times> ConsensusMessage option" where
  "OnTimeoutPrevote orc a h rnd =
     (if h = height orc a \<and> rnd = round a \<and> step a = Prevote
      then (let a1 = a\<lparr>step := Precommit\<rparr> in (a1, Some (msg orc a1 Precommit NilValue)))
      else (a, None))"

definition OnTimeoutPrecommit ::
  "Oracle \<Rightarrow> Algorithm \<Rightarrow> uint64 \<Rightarrow> int64 \<Rightarrow> RoundChange option" where
  "OnTimeoutPrecommit orc a h rnd =
     (if h = height orc a \<and> rnd = round a
      then Some \<lparr>rcRound = round a + 1, Decision = None\<rparr>
      else None)"


text \<open>
  The calls a round may see after its \<^verbatim>\<open>StartRound\<close> and before the next one, each
  with the oracle as it answers at that call. \<open>run_round\<close> makes the calls in order and
  lists the upon rule fired by each \<^verbatim>\<open>ReceiveMessage\<close>.
\<close>

datatype event =
  Receive ConsensusMessage
| TimeoutPropose uint64 int64
| TimeoutPrevote uint64 int64
| TimeoutPrecommit uint64 int64

fun run_round :: "Algorithm \<Rightarrow> (Oracle \<times> event) list \<Rightarrow> upon list" where
  "run_round a [] = []"
| "run_round a ((orc, Receive cm) # calls) =
     fired (ReceiveMessage orc a cm) # run_round (alg (ReceiveMessage orc a cm)) calls"
| "run_round a ((orc, TimeoutPropose h r) # calls) =
     run_round (fst (OnTimeoutPropose orc a h r)) calls"
| "run_round a ((orc, TimeoutPrevote h r) # calls) =
     run_round (fst (OnTimeoutPrevote orc a h r)) calls"
| "run_round a ((orc, TimeoutPrecommit h r) # calls) = run_round a calls"

section \<open>Messages, errors and rules of the fault detector\<close>

text \<open>
  The errors that the handler returns and compares: the package variables of the fault
  detector, \<^verbatim>\<open>consensus.ErrFutureBlock\<close>, and any other error with its text.
\<close>

datatype error =
  errFutureMsg | errNotCommitteeMsg | errEquivocation | errProposer | errProposal
| errGarbageMsg | errUnknownMsg | ErrFutureBlock | errOther string

text \<open>
  Modelled from the spec: the message type \<^verbatim>\<open>types.ConsensusMessage\<close> (\<^verbatim>\<open>core.Message\<close>
  in the older package), its message codes and the hash \<^verbatim>\<open>types.RLPHash\<close> are declared
  in packages that are not part of the sources at hand. A message is the record of what
  the functions below read from it: the fields \<^verbatim>\<open>Code\<close> and \<^verbatim>\<open>Address\<close>, and the
  results of the accessors \<^verbatim>\<open>Payload()\<close>, \<^verbatim>\<open>Height()\<close>, \<^verbatim>\<open>Round()\<close>, \<^verbatim>\<open>Type()\<close> and
  \<^verbatim>\<open>GetPower()\<close>. \<^verbatim>\<open>Height()\<close> and \<^verbatim>\<open>Round()\<close> return a value and an error, a pair
  here. The height is a \<^verbatim>\<open>*big.Int\<close>, an unbounded integer. The codes follow the Step
  enumeration of the spec; the functions below only need them to be distinct. The hash
  is a parameter of the functions that call it.
\<close>

type_synonym bytes = "8 word list"
type_synonym Hash = "256 word"

record Message =
  Code :: uint64
  Address :: NodeID
  mPayload :: bytes
  mHeight :: "int \<times> error option"
  mRound :: "int64 \<times> error option"
  mType :: uint64
  mPower :: uint64

definition MsgProposal :: uint64 where
  "MsgProposal = 0"

definition MsgPrevote :: uint64 where
  "MsgPrevote = 1"

definition MsgPrecommit :: uint64 where
  "MsgPrecommit = 2"

text \<open>
  \<^verbatim>\<open>(*big.Int).Uint64\<close> and \<^verbatim>\<open>(*big.Int).Cmp\<close> of Go's library: the low 64 bits of
  the absolute value, and the three-way comparison with results \<open>-1\<close>, \<open>0\<close> and
  \<open>+1\<close>.
\<close>

definition Uint64 :: "int \<Rightarrow> uint64" where
  "Uint64 x = word_of_int \<bar>x\<bar>"

definition Cmp :: "int \<Rightarrow> int \<Rightarrow> int" where
  "Cmp x y = (if x < y then - 1 else if x = y then 0 else 1)"

text \<open>
  \<^verbatim>\<open>type Rule uint8\<close>: \<^verbatim>\<open>iota\<close> numbers the constants of the block from 0, in the
  order in which the block lists them; the blank line and the comments of the block do
  not count.
\<close>

type_synonym Rule = "8 word"

definition PN :: Rule where
  "PN = 0"

definition PO :: Rule where
  "PO = 1"

definition PVN :: Rule where
  "PVN = 2"

definition PVO :: Rule where
  "PVO = 3"

definition C :: Rule where
  "C = 4"

definition C1 :: Rule where
  "C1 = 5"

definition GarbageMessage :: Rule where
  "GarbageMessage = 6"

definition InvalidProposal :: Rule where
  "InvalidProposal = 7"

definition InvalidProposer :: Rule where
  "InvalidProposer = 8"

definition Equivocation :: Rule where
  "Equivocation = 9"

definition UnknownRule :: Rule where
  "UnknownRule = 10"

datatype ProofType = InnocentProof | ChallengeProof | AccusationProof

record RawProof =
  Rule :: Rule
  rpMessage :: bytes
  Evidence :: "bytes list"

record OnChainProof =
  Sender :: NodeID
  Msghash :: Hash
  Rawproof :: bytes

definition errorToRule :: "error \<Rightarrow> Rule \<times> string option" where
  "errorToRule err =
     (if err = errEquivocation then (Equivocation, None)
      else if err = errProposer then (InvalidProposer, None)
      else if err = errProposal then (InvalidProposal, None)
      else if err = errGarbageMsg then (GarbageMessage, None)
      else (UnknownRule, Some ''errors of not provable''))"

text \<open>
  \<^verbatim>\<open>generateOnChainProof\<close>. \<^verbatim>\<open>var challenge\<close> and \<^verbatim>\<open>var rawProof\<close> start as zero
  values and are filled field by field; the loop appends the payload of each proof to
  the evidence. The encoder \<^verbatim>\<open>rlp.EncodeToBytes\<close> is not part of the sources at hand:
  it is a parameter that returns an error or the bytes. When it returns an error, the
  function returns the challenge as it is then, with no raw proof in it, and the error.
\<close>

fun appendPayloads :: "bytes list \<Rightarrow> Message list \<Rightarrow> bytes list" where
  "appendPayloads evidence [] = evidence"
| "appendPayloads evidence (p # proofs) = appendPayloads (evidence @ [mPayload p]) proofs"

definition generateOnChainProof ::
  "(RawProof \<Rightarrow> error + bytes) \<Rightarrow> (bytes \<Rightarrow> Hash) \<Rightarrow> Message \<Rightarrow> Message list \<Rightarrow> Rule
     \<Rightarrow> OnChainProof \<times> error option" where
  "generateOnChainProof EncodeToBytes RLPHash m proofs rule =
     (let challenge0 = \<lparr>Sender = 0, Msghash = 0, Rawproof = []\<rparr>;
          challenge = challenge0\<lparr>Sender := Address m, Msghash := RLPHash (mPayload m)\<rparr>;
          rawProof0 = \<lparr>Rule = 0, rpMessage = [], Evidence = []\<rparr>;
          rawProof1 = rawProof0\<lparr>Rule := rule, rpMessage := mPayload m\<rparr>;
          rawProof = rawProof1\<lparr>Evidence := appendPayloads (Evidence rawProof1) proofs\<rparr>
      in case EncodeToBytes rawProof of
           Inl err \<Rightarrow> (challenge, Some err)
         | Inr rp \<Rightarrow> (challenge\<lparr>Rawproof := rp\<rparr>, None))"

section \<open>Voting power (the rule engine's \<^verbatim>\<open>powerOfVotes\<close>)\<close>

text \<open>
  The loop of \<^verbatim>\<open>powerOfVotes\<close> with its accumulator \<^verbatim>\<open>power\<close> (\<open>pwr\<close> here);
  \<^verbatim>\<open>continue\<close> goes on with the accumulator as it is. The sum is a \<^verbatim>\<open>uint64\<close> and wraps around.
\<close>

fun powerOfVotes_loop :: "uint64 \<Rightarrow> Message list \<Rightarrow> uint64" where
  "powerOfVotes_loop pwr [] = pwr"
| "powerOfVotes_loop pwr (v # votes) =
     (if mType v \<noteq> MsgPrevote \<or> mType v \<noteq> MsgPrecommit
      then powerOfVotes_loop pwr votes
      else powerOfVotes_loop (pwr + mPower v) votes)"

definition powerOfVotes :: "Message list \<Rightarrow> uint64" where
  "powerOfVotes votes = powerOfVotes_loop 0 votes"

section \<open>The message store (\<^verbatim>\<open>MsgStore\<close>)\<close>

text \<open>
  \<^verbatim>\<open>map[uint64]map[int64]map[uint64]map[common.Address]*Message\<close>: four levels of maps,
  by height, round, message code and sender.
\<close>

type_synonym AddressMap = "NodeID \<rightharpoonup> Message"
type_synonym MsgTypeMap = "uint64 \<rightharpoonup> AddressMap"
type_synonym RoundMap = "int64 \<rightharpoonup> MsgTypeMap"
type_synonym MsgStore = "uint64 \<rightharpoonup> RoundMap"

definition newMsgStore :: MsgStore where
  "newMsgStore = Map.empty"

text \<open>
  \<^verbatim>\<open>Save\<close>. A map that is missing at one level is made and linked into the level above;
  Go's maps are references, so after the three lookups the store holds \<open>roundMap\<close> at
  the height, \<open>roundMap\<close> holds \<open>msgTypeMap\<close> at the round and \<open>msgTypeMap\<close> holds
  \<open>addressMap\<close> at the code, whichever of them were made. \<open>linked\<close> is that store, for
  the address map as the function leaves it. The errors of \<^verbatim>\<open>Height()\<close> and \<^verbatim>\<open>Round()\<close>
  are dropped, as the source drops them.
\<close>

definition Save ::
  "(bytes \<Rightarrow> Hash) \<Rightarrow> MsgStore \<Rightarrow> Message \<Rightarrow> MsgStore \<times> Message option \<times> error option" where
  "Save RLPHash ms m =
     (let h = Uint64 (fst (mHeight m));
          roundMap = (case ms h of None \<Rightarrow> Map.empty | Some rm \<Rightarrow> rm);
          rnd = fst (mRound m);
          msgTypeMap = (case roundMap rnd of None \<Rightarrow> Map.empty | Some tm \<Rightarrow> tm);
          addressMap = (case msgTypeMap (Code m) of None \<Rightarrow> Map.empty | Some am \<Rightarrow> am);
          linked = (\<lambda>am. ms(h \<mapsto> roundMap(rnd \<mapsto> msgTypeMap(Code m \<mapsto> am))))
      in case addressMap (Address m) of
           None \<Rightarrow> (linked (addressMap(Address m \<mapsto> m)), None, None)
         | Some msg' \<Rightarrow>
             if RLPHash (mPayload msg') \<noteq> RLPHash (mPayload m)
             then (linked addressMap, Some msg', Some errEquivocation)
             else (linked addressMap, None, None))"

text \<open>The message at a key, \<^verbatim>\<open>ms.messages[h][r][c][s]\<close>: a missing map has no entries.\<close>

definition lookup :: "MsgStore \<Rightarrow> uint64 \<Rightarrow> int64 \<Rightarrow> uint64 \<Rightarrow> NodeID \<Rightarrow> Message option" where
  "lookup ms h r c s =
     (case ms h of None \<Rightarrow> None
      | Some roundMap \<Rightarrow>
          (case roundMap r of None \<Rightarrow> None
           | Some msgTypeMap \<Rightarrow>
               (case msgTypeMap c of None \<Rightarrow> None
                | Some addressMap \<Rightarrow> addressMap s)))"

text \<open>
  \<^verbatim>\<open>Get\<close> ranges over three levels of maps. Go does not specify the order in which a
  \<^verbatim>\<open>range\<close> visits the keys of a map, and it may differ from one \<^verbatim>\<open>range\<close> to the
  next. The order that the three loops of one call take is the argument \<open>ord\<close>: the
  rounds in the order of the outer loop, for each round the codes in the order of the
  middle loop, for each round and code the senders in the order of the inner loop.
  \<open>range_order\<close> says that a list is an order in which a \<^verbatim>\<open>range\<close> can visit a map:
  every key once. \<open>valid_order\<close> says so for each loop of \<^verbatim>\<open>Get\<close>.
\<close>

record RangeOrder =
  rounds :: "int64 list"
  codes :: "int64 \<Rightarrow> uint64 list"
  senders :: "int64 \<Rightarrow> uint64 \<Rightarrow> NodeID list"

definition range_order :: "('k \<rightharpoonup> 'v) \<Rightarrow> 'k list \<Rightarrow> bool" where
  "range_order m ks \<longleftrightarrow> distinct ks \<and> set ks = dom m"

definition valid_order :: "RangeOrder \<Rightarrow> MsgStore \<Rightarrow> uint64 \<Rightarrow> bool" where
  "valid_order ord ms h \<longleftrightarrow>
     (\<forall>roundMap. ms h = Some roundMap \<longrightarrow>
        range_order roundMap (rounds ord)
        \<and> (\<forall>r msgTypeMap. roundMap r = Some msgTypeMap \<longrightarrow>
              range_order msgTypeMap (codes ord r)
              \<and> (\<forall>c addressMap. msgTypeMap c = Some addressMap \<longrightarrow>
                    range_order addressMap (senders ord r c))))"

definition Get ::
  "RangeOrder \<Rightarrow> MsgStore \<Rightarrow> uint64 \<Rightarrow> (Message \<Rightarrow> bool) \<Rightarrow> Message list" where
  "Get ord ms h query =
     (case ms h of
        None \<Rightarrow> []
      | Some roundMap \<Rightarrow>
          concat (map (\<lambda>r. case roundMap r of
              None \<Rightarrow> []
            | Some msgTypeMap \<Rightarrow>
                concat (map (\<lambda>c. case msgTypeMap c of
                    None \<Rightarrow> []
                  | Some addressMap \<Rightarrow>
                      filter query (List.map_filter addressMap (senders ord r c)))
                  (codes ord r)))
            (rounds ord)))"

section \<open>The message handler of the fault detector (afd/msg\_handler.go)\<close>

text \<open>
  What the handler asks of the chain and of the message decoder, which are not part of
  the sources at hand: the number of the current header; whether \<^verbatim>\<open>m.Validate\<close> accepts
  the signature against the header with a given number; whether \<^verbatim>\<open>m.Decode\<close> succeeds;
  whether the sender is the proposer (\<^verbatim>\<open>isProposerMsg\<close>, which reads the parent header
  and the contract state); the result of \<^verbatim>\<open>verifyProposal\<close> on the decoded block; the
  hash and the encoder of the RLP library.
\<close>

record Chain =
  CurrentHeaderNumber :: int
  ValidateOK :: "Message \<Rightarrow> uint64 \<Rightarrow> bool"
  DecodeOK :: "Message \<Rightarrow> bool"
  isProposerMsg :: "Message \<Rightarrow> bool"
  verifyProposal :: "Message \<Rightarrow> error option"
  RLPHash :: "bytes \<Rightarrow> Hash"
  EncodeToBytes :: "RawProof \<Rightarrow> error + bytes"

text \<open>
  The fault detector: its buffer of future messages, its message store, and the proofs
  it has handed to \<^verbatim>\<open>sendProofs\<close>, oldest first.
\<close>

record FaultDetector =
  futureMsgs :: "uint64 \<rightharpoonup> Message list"
  msgStore :: MsgStore
  sentProofs :: "(ProofType \<times> OnChainProof list) list"

definition checkMsgSignature :: "Chain \<Rightarrow> Message \<Rightarrow> error option" where
  "checkMsgSignature chain m =
     (case mHeight m of
        (msgHeight, Some err) \<Rightarrow> Some err
      | (msgHeight, None) \<Rightarrow>
          if 1 < Cmp msgHeight (CurrentHeaderNumber chain) then Some errFutureMsg
          else if \<not> ValidateOK chain m (Uint64 msgHeight - 1) then Some errNotCommitteeMsg
          else None)"

definition checkProposal :: "Chain \<Rightarrow> Message \<Rightarrow> error option" where
  "checkProposal chain m =
     (if \<not> DecodeOK chain m then Some errGarbageMsg
      else if \<not> isProposerMsg chain m then Some errProposer
      else (case verifyProposal chain m of
              Some err \<Rightarrow> if err = ErrFutureBlock then Some errFutureMsg else Some errProposal
            | None \<Rightarrow> None))"

definition decodeVote :: "Chain \<Rightarrow> Message \<Rightarrow> error option" where
  "decodeVote chain m = (if \<not> DecodeOK chain m then Some errGarbageMsg else None)"

definition checkAutoIncriminatingMsg :: "Chain \<Rightarrow> Message \<Rightarrow> error option" where
  "checkAutoIncriminatingMsg chain m =
     (if Code m = MsgProposal then checkProposal chain m
      else if Code m = MsgPrevote \<or> Code m = MsgPrecommit then decodeVote chain m
      else Some errUnknownMsg)"

definition bufferMsg :: "FaultDetector \<Rightarrow> Message \<Rightarrow> FaultDetector" where
  "bufferMsg fd m =
     (case mHeight m of
        (h, Some err) \<Rightarrow> fd
      | (h, None) \<Rightarrow>
          fd\<lparr>futureMsgs := (futureMsgs fd)
               (Uint64 h \<mapsto> (case futureMsgs fd (Uint64 h) of None \<Rightarrow> [] | Some msgs \<Rightarrow> msgs) @ [m])\<rparr>)"

definition sendProofs :: "FaultDetector \<Rightarrow> ProofType \<Rightarrow> OnChainProof list \<Rightarrow> FaultDetector" where
  "sendProofs fd t ps = fd\<lparr>sentProofs := sentProofs fd @ [(t, ps)]\<rparr>"

text \<open>
  \<^verbatim>\<open>submitMisbehavior\<close> logs the errors of \<^verbatim>\<open>errorToRule\<close> and of
  \<^verbatim>\<open>generateOnChainProof\<close> and sends the proof in either case.
\<close>

definition submitMisbehavior ::
  "Chain \<Rightarrow> FaultDetector \<Rightarrow> Message \<Rightarrow> Message list \<Rightarrow> error \<Rightarrow> FaultDetector" where
  "submitMisbehavior chain fd m proofs err =
     (let rule = fst (errorToRule err);
          proof = fst (generateOnChainProof (EncodeToBytes chain) (RLPHash chain) m proofs rule)
      in sendProofs fd ChallengeProof [proof])"

definition processMsg :: "Chain \<Rightarrow> FaultDetector \<Rightarrow> Message \<Rightarrow> FaultDetector \<times> error option" where
  "processMsg chain fd m =
     (case checkMsgSignature chain m of
        Some err \<Rightarrow> ((if err = errFutureMsg then bufferMsg fd m else fd), Some err)
      | None \<Rightarrow>
          (let auto = checkAutoIncriminatingMsg chain m in
           if auto \<noteq> None \<and> auto \<noteq> Some errFutureMsg
           then (submitMisbehavior chain fd m [m] (the auto), auto)
           else
             let fd1 = (if auto = Some errFutureMsg then bufferMsg fd m else fd);
                 saved = Save (RLPHash chain) (msgStore fd1) m;
                 fd2 = fd1\<lparr>msgStore := fst saved\<rparr>;
                 p = fst (snd saved);
                 err = snd (snd saved)
             in if err = Some errEquivocation \<and> p \<noteq> None
                then (submitMisbehavior chain fd2 m [the p] errEquivocation, err)
                else (fd2, None)))"

text \<open>
  \<^verbatim>\<open>processBufferedMsgs\<close>. The \<^verbatim>\<open>range\<close> clause declares a variable \<^verbatim>\<open>height\<close> that
  hides the parameter of that name in the body of the loop, so the test
  \<^verbatim>\<open>height <= height\<close> compares the key of the buffer with itself. The keys are visited
  in the order \<open>ord\<close> (see \<open>range_order\<close>); a buffer is read when the loop reaches its
  key. An error of \<^verbatim>\<open>processMsg\<close> is logged and the loop continues. The parameter
  \<^verbatim>\<open>height\<close> is \<open>hgt\<close> here.
\<close>

fun processMsgs :: "Chain \<Rightarrow> FaultDetector \<Rightarrow> Message list \<Rightarrow> FaultDetector" where
  "processMsgs chain fd [] = fd"
| "processMsgs chain fd (m # msgs) = processMsgs chain (fst (processMsg chain fd m)) msgs"

fun processBuffers :: "Chain \<Rightarrow> FaultDetector \<Rightarrow> uint64 list \<Rightarrow> FaultDetector" where
  "processBuffers chain fd [] = fd"
| "processBuffers chain fd (k # ks) =
     (case futureMsgs fd k of
        None \<Rightarrow> processBuffers chain fd ks
      | Some msgs \<Rightarrow>
          processBuffers chain (if k \<le> k then processMsgs chain fd msgs else fd) ks)"

definition processBufferedMsgs ::
  "Chain \<Rightarrow> uint64 list \<Rightarrow> FaultDetector \<Rightarrow> uint64 \<Rightarrow> FaultDetector" where
  "processBufferedMsgs chain ord fd hgt = processBuffers chain fd ord"

text \<open>The buffer of a height, empty when the map has no entry for it.\<close>

definition buffered :: "FaultDetector \<Rightarrow> uint64 \<Rightarrow> Message list" where
  "buffered fd k = (case futureMsgs fd k of None \<Rightarrow> [] | Some msgs \<Rightarrow> msgs)"

section \<open>Example inputs\<close>

text \<open>
  An oracle that sees no quorum and holds every value invalid; an algorithm at round 1,
  step Propose, locked on the value 7 in round 0; a new proposal (valid round \<open>-1\<close>) of
  the value 7 for round 1.
\<close>

definition quiet_oracle :: Oracle where
  "quiet_oracle =
     \<lparr>Valid = (\<lambda>v. False),
      MatchingProposal = (\<lambda>m. if MsgType m = Propose then Some m else None),
      PrevoteQThresh = (\<lambda>r v. False), PrecommitQThresh = (\<lambda>r v. False),
      FThresh = (\<lambda>r. False), Proposer = (\<lambda>r n. False), oHeight = 11, oValue = Inr 7\<rparr>"

definition locked_alg :: Algorithm where
  "locked_alg =
     \<lparr>nodeID = 1, round = 1, step = Propose, lockedRound = 0, lockedValue = 7,
      validRound = 0, validValue = 7,
      line34Executed = False, line36Executed = False, line47Executed = False\<rparr>"

definition proposal7 :: ConsensusMessage where
  "proposal7 = \<lparr>MsgType = Propose, Height = 11, Round = 1, Value = 7, ValidRound = - 1\<rparr>"

text \<open>
  A round 0 at height 11 in which the votes arrive in two waves. The proposal of the
  round is for the value 7. \<open>some_votes\<close> is the oracle while the prevotes and the
  precommits of the round reach the quorum only when counted for any value;
  \<open>prevotes_for_7\<close> is the oracle once the prevotes for 7 reach it too. \<open>started\<close> is
  the algorithm after \<^verbatim>\<open>StartRound(0)\<close> at a node that is not the proposer.
\<close>

definition proposal0 :: ConsensusMessage where
  "proposal0 = \<lparr>MsgType = Propose, Height = 11, Round = 0, Value = 7, ValidRound = - 1\<rparr>"

definition prevote7 :: ConsensusMessage where
  "prevote7 = \<lparr>MsgType = Prevote, Height = 11, Round = 0, Value = 7, ValidRound = 0\<rparr>"

definition precommit7 :: ConsensusMessage where
  "precommit7 = \<lparr>MsgType = Precommit, Height = 11, Round = 0, Value = 7, ValidRound = 0\<rparr>"

definition some_votes :: Oracle where
  "some_votes =
     \<lparr>Valid = (\<lambda>v. v = 7), MatchingProposal = (\<lambda>m. Some proposal0),
      PrevoteQThresh = (\<lambda>r v. v = None), PrecommitQThresh = (\<lambda>r v. v = None),
      FThresh = (\<lambda>r. False), Proposer = (\<lambda>r n. False), oHeight = 11, oValue = Inr 7\<rparr>"

definition prevotes_for_7 :: Oracle where
  "prevotes_for_7 =
     \<lparr>Valid = (\<lambda>v. v = 7), MatchingProposal = (\<lambda>m. Some proposal0),
      PrevoteQThresh = (\<lambda>r v. v = None \<or> v = Some 7), PrecommitQThresh = (\<lambda>r v. v = None),
      FThresh = (\<lambda>r. False), Proposer = (\<lambda>r n. False), oHeight = 11, oValue = Inr 7\<rparr>"

definition started :: Algorithm where
  "started =
     \<lparr>nodeID = 1, round = 0, step = Propose, lockedRound = - 1, lockedValue = NilValue,
      validRound = - 1, validValue = NilValue,
      line34Executed = False, line36Executed = False, line47Executed = False\<rparr>"

definition round0_calls :: "(Oracle \<times> event) list" where
  "round0_calls =
     [(some_votes, TimeoutPropose 11 0),
      (some_votes, Receive prevote7), (some_votes, Receive prevote7),
      (prevotes_for_7, Receive prevote7), (prevotes_for_7, Receive prevote7),
      (prevotes_for_7, Receive precommit7), (prevotes_for_7, Receive precommit7)]"

text \<open>
  An oracle that sees a precommit quorum for the proposal of a message, and one that
  sees messages above the failure threshold in every round; a precommit of round 5.
\<close>

definition deciding_oracle :: Oracle where
  "deciding_oracle =
     \<lparr>Valid = (\<lambda>v. True), MatchingProposal = (\<lambda>m. Some proposal0),
      PrevoteQThresh = (\<lambda>r v. False), PrecommitQThresh = (\<lambda>r v. True),
      FThresh = (\<lambda>r. False), Proposer = (\<lambda>r n. False), oHeight = 11, oValue = Inr 7\<rparr>"

definition skipping_oracle :: Oracle where
  "skipping_oracle =
     \<lparr>Valid = (\<lambda>v. False), MatchingProposal = (\<lambda>m. None),
      PrevoteQThresh = (\<lambda>r v. False), PrecommitQThresh = (\<lambda>r v. False),
      FThresh = (\<lambda>r. True), Proposer = (\<lambda>r n. False), oHeight = 11, oValue = Inr 7\<rparr>"

definition precommit_r5 :: ConsensusMessage where
  "precommit_r5 = \<lparr>MsgType = Precommit, Height = 11, Round = 5, Value = 7, ValidRound = 0\<rparr>"

text \<open>
  A stand-in for the hash (the first byte of the payload), three prevotes of the sender
  1 at height 11, and two stores built with \<^verbatim>\<open>Save\<close>. \<open>vote_a\<close> and \<open>vote_b\<close> are for
  round 0 and differ in their payloads; \<open>vote_r1\<close> is for round 1. The two orders
  visit the rounds of height 11 upwards and downwards.
\<close>

definition first_byte :: "bytes \<Rightarrow> Hash" where
  "first_byte bs = (case bs of [] \<Rightarrow> 0 | b # rest \<Rightarrow> ucast b)"

definition vote_a :: Message where
  "vote_a = \<lparr>Code = MsgPrevote, Address = 1, mPayload = [1], mHeight = (11, None),
     mRound = (0, None), mType = MsgPrevote, mPower = 1\<rparr>"

definition vote_b :: Message where
  "vote_b = \<lparr>Code = MsgPrevote, Address = 1, mPayload = [2], mHeight = (11, None),
     mRound = (0, None), mType = MsgPrevote, mPower = 1\<rparr>"

definition vote_r1 :: Message where
  "vote_r1 = \<lparr>Code = MsgPrevote, Address = 1, mPayload = [3], mHeight = (11, None),
     mRound = (1, None), mType = MsgPrevote, mPower = 1\<rparr>"

definition store_a :: MsgStore where
  "store_a = fst (Save first_byte newMsgStore vote_a)"

definition store_a_r1 :: MsgStore where
  "store_a_r1 = fst (Save first_byte store_a vote_r1)"

definition upwards :: RangeOrder where
  "upwards = \<lparr>rounds = [0, 1], codes = (\<lambda>r. [MsgPrevote]), senders = (\<lambda>r c. [1])\<rparr>"

definition downwards :: RangeOrder where
  "downwards = \<lparr>rounds = [1, 0], codes = (\<lambda>r. [MsgPrevote]), senders = (\<lambda>r c. [1])\<rparr>"

text \<open>
  Two stand-ins for the encoder: one fails on every raw proof, the other one returns
  the rule, the message and the evidence one after the other. Two chains whose head is
  block 5 and which accept every proposal: one accepts the signature of every message,
  the other one rejects it. A fault detector that has seen nothing. \<open>vote_a\<close> above is
  for height 11.
\<close>

definition failing_encoder :: "RawProof \<Rightarrow> error + bytes" where
  "failing_encoder rp = Inl (errOther ''encoding failed'')"

definition rule_first_encoder :: "RawProof \<Rightarrow> error + bytes" where
  "rule_first_encoder rp = Inr (Rule rp # rpMessage rp @ concat (Evidence rp))"

definition chain_at_5 :: Chain where
  "chain_at_5 =
     \<lparr>CurrentHeaderNumber = 5, ValidateOK = (\<lambda>m n. True), DecodeOK = (\<lambda>m. True),
      isProposerMsg = (\<lambda>m. True), verifyProposal = (\<lambda>m. None), RLPHash = first_byte,
      EncodeToBytes = failing_encoder\<rparr>"

definition chain_at_5_rejecting :: Chain where
  "chain_at_5_rejecting =
     \<lparr>CurrentHeaderNumber = 5, ValidateOK = (\<lambda>m n. False), DecodeOK = (\<lambda>m. True),
      isProposerMsg = (\<lambda>m. True), verifyProposal = (\<lambda>m. None), RLPHash = first_byte,
      EncodeToBytes = failing_encoder\<rparr>"

definition new_detector :: FaultDetector where
  "new_detector = \<lparr>futureMsgs = Map.empty, msgStore = newMsgStore, sentProofs = []\<rparr>"

text \<open>
  A proposal for height 4. The chain at head 3 accepts its signature and holds its block
  to be a future block, so \<^verbatim>\<open>processMsg\<close> buffers it; the chain at head 10 accepts the
  block.
\<close>

definition proposal_h4 :: Message where
  "proposal_h4 = \<lparr>Code = MsgProposal, Address = 1, mPayload = [4], mHeight = (4, None),
     mRound = (0, None), mType = MsgProposal, mPower = 1\<rparr>"

definition chain_at_3 :: Chain where
  "chain_at_3 =
     \<lparr>CurrentHeaderNumber = 3, ValidateOK = (\<lambda>m n. True), DecodeOK = (\<lambda>m. True),
      isProposerMsg = (\<lambda>m. True), verifyProposal = (\<lambda>m. Some ErrFutureBlock),
      RLPHash = first_byte,
      EncodeToBytes = failing_encoder\<rparr>"

definition chain_at_10 :: Chain where
  "chain_at_10 =
     \<lparr>CurrentHeaderNumber = 10, ValidateOK = (\<lambda>m n. True), DecodeOK = (\<lambda>m. True),
      isProposerMsg = (\<lambda>m. True), verifyProposal = (\<lambda>m. None), RLPHash = first_byte,
      EncodeToBytes = failing_encoder\<rparr>"

definition buffering_detector :: FaultDetector where
  "buffering_detector = fst (processMsg chain_at_3 new_detector proposal_h4)"

section \<open>Properties of the algorithm\<close>

lemmas bodies =
  body22_def body28_def body36_def body44_def body34_def body49_def body47_def body55_def

lemmas conds =
  cond22_def cond28_def cond36_def cond44_def cond34_def cond49_def cond47_def cond55_def

lemmas steps = Propose_def Prevote_def Precommit_def

text \<open>The rule that each body reports, and the body behind each of the latched rules.\<close>

lemma fired_body:
  "fired (body22 orc a cm) = Line22"
  "fired (body28 orc a cm) = Line28"
  "fired (body36 orc a cm) = Line36"
  "fired (body44 orc a cm) = Line44"
  "fired (body34 orc a cm) = Line34"
  "fired (body49 orc a cm) = Line49"
  "fired (body47 orc a cm) = Line47"
  "fired (body55 a cm) = Line55"
  by (simp_all add: bodies Let_def)

lemma fired36_body:
  "fired (ReceiveMessage orc a cm) = Line36 \<Longrightarrow>
     cond36 orc a cm \<and> ReceiveMessage orc a cm = body36 orc a cm"
  by (simp add: ReceiveMessage_def fired_body split: if_splits)

lemma fired34_body:
  "fired (ReceiveMessage orc a cm) = Line34 \<Longrightarrow>
     cond34 orc a cm \<and> ReceiveMessage orc a cm = body34 orc a cm"
  by (simp add: ReceiveMessage_def fired_body split: if_splits)

lemma fired47_body:
  "fired (ReceiveMessage orc a cm) = Line47 \<Longrightarrow>
     cond47 orc a cm \<and> ReceiveMessage orc a cm = body47 orc a cm"
  by (simp add: ReceiveMessage_def fired_body split: if_splits)

lemma fired55_body:
  "fired (ReceiveMessage orc a cm) = Line55 \<Longrightarrow>
     cond55 orc a cm \<and> ReceiveMessage orc a cm = body55 a cm"
  by (simp add: ReceiveMessage_def fired_body split: if_splits)

subsection \<open>Line 22\<close>

text \<open>
  What Line 22 prevotes, for every oracle, algorithm and message that meet its
  condition: the value of the proposal exactly when it is valid and nothing is locked,
  or when it is the locked value, valid or not.
\<close>

lemma line22_prevote:
  assumes "cond22 a cm"
  shows "fired (ReceiveMessage orc a cm) = Line22"
    and "step (alg (ReceiveMessage orc a cm)) = Prevote"
    and "message (ReceiveMessage orc a cm) =
           Some \<lparr>MsgType = Prevote, Height = oHeight orc, Round = round a,
                 Value = (if Valid orc (Value cm) \<and> lockedRound a = - 1 \<or> lockedValue a = Value cm
                          then Value cm else NilValue),
                 ValidRound = 0\<rparr>"
  using assms by (simp_all add: ReceiveMessage_def body22_def Let_def msg_def height_def steps)

text \<open>
  The algorithm \<open>locked_alg\<close> is reached from \<open>started\<close>, the state after
  \<^verbatim>\<open>StartRound(0)\<close>: it receives the proposal of round 0 for the value 7 and prevotes
  it, receives a prevote that completes the quorum for 7 and locks 7 (Line 36), and
  starts round 1.
\<close>

lemma locked_alg_reached:
  "fired (ReceiveMessage prevotes_for_7 started proposal0) = Line22
   \<and> fired (ReceiveMessage prevotes_for_7
               (alg (ReceiveMessage prevotes_for_7 started proposal0)) prevote7) = Line36
   \<and> StartRound quiet_oracle
         (alg (ReceiveMessage prevotes_for_7
                 (alg (ReceiveMessage prevotes_for_7 started proposal0)) prevote7)) 1
       = Inr (locked_alg, None, Some (timeout quiet_oracle locked_alg Propose), None)"
  by (simp add: ReceiveMessage_def conds bodies Let_def StartRound_def prevotes_for_7_def
      quiet_oracle_def started_def locked_alg_def proposal0_def prevote7_def timeout_def
      height_def steps NilValue_def word_sless_alt word_sle_eq)

text \<open>
  Claim C2, at an input where the code departs from it. The algorithm is at round 1 in
  step Propose and locked on the value 7; the oracle holds 7 invalid; a new proposal
  (valid round \<open>-1\<close>) for round 1 carries the value 7. The claim asks for a prevote for
  nil; \<^verbatim>\<open>ReceiveMessage\<close> sets the step to Prevote and returns a prevote for 7.
\<close>

theorem line22_prevotes_invalid_locked_value:
  "cond22 locked_alg proposal7
   \<and> \<not> Valid quiet_oracle (Value proposal7)
   \<and> lockedValue locked_alg = Value proposal7
   \<and> Value proposal7 \<noteq> NilValue
   \<and> step (alg (ReceiveMessage quiet_oracle locked_alg proposal7)) = Prevote
   \<and> message (ReceiveMessage quiet_oracle locked_alg proposal7) =
       Some \<lparr>MsgType = Prevote, Height = 11, Round = 1, Value = Value proposal7,
             ValidRound = 0\<rparr>"
  by (simp add: ReceiveMessage_def cond22_def body22_def quiet_oracle_def locked_alg_def
      proposal7_def msg_def height_def NilValue_def steps)

subsection \<open>StartRound\<close>

text \<open>
  Claim C9: \<^verbatim>\<open>StartRound(r)\<close> requires a round above the current one. With
  \<open>r \<le> current round\<close> (as signed 64-bit integers) it panics, the panic naming both
  rounds, and the algorithm is as it was; with \<open>r > current round\<close> it does not panic.
  A fresh algorithm has round \<open>-1\<close>, so \<^verbatim>\<open>StartRound(0)\<close> on it does not panic.
\<close>

theorem StartRound_precondition:
  "(rnd <=s round a \<longrightarrow> StartRound orc a rnd = Inl (StartRoundPanic (round a) rnd, a))
   \<and> (round a <s rnd \<longrightarrow> (\<exists>res. StartRound orc a rnd = Inr res))
   \<and> round (New n) = - 1
   \<and> (\<exists>res. StartRound orc (New n) 0 = Inr res)"
  by (auto simp add: StartRound_def Let_def New_def signed.not_le[symmetric] split: sum.splits)

theorem StartRound_precondition_witness:
  "(- 1 :: int64) <=s round (New 1)
   \<and> StartRound quiet_oracle (New 1) (- 1) = Inl (StartRoundPanic (- 1) (- 1), New 1)
   \<and> round (New 1) <s 0
   \<and> (\<exists>res. StartRound quiet_oracle (New 1) 0 = Inr res)"
  using StartRound_precondition [of "- 1" "New 1" quiet_oracle 1]
    StartRound_precondition [of 0 "New 1" quiet_oracle 1]
  by (simp add: New_def)

subsection \<open>Round changes\<close>

lemma decision_round_0:
  "roundChange (ReceiveMessage orc a cm) = Some rc \<Longrightarrow> Decision rc \<noteq> None \<Longrightarrow> rcRound rc = 0"
  by (auto simp add: ReceiveMessage_def bodies Let_def split: if_splits)

lemma line55_no_decision:
  "fired (ReceiveMessage orc a cm) = Line55 \<Longrightarrow>
     roundChange (ReceiveMessage orc a cm) = Some \<lparr>rcRound = Round cm, Decision = None\<rparr>"
  by (drule fired55_body) (simp add: body55_def)

lemma timeout_no_decision:
  "OnTimeoutPrecommit orc a h rnd = Some rc \<Longrightarrow> Decision rc = None"
  by (auto simp add: OnTimeoutPrecommit_def split: if_splits)

text \<open>
  Claim C10: a round change that \<^verbatim>\<open>ReceiveMessage\<close> returns with a decision has round
  0; the round change of Line 55 is for the round of the message and has no decision;
  the round change of \<^verbatim>\<open>OnTimeoutPrecommit\<close> has no decision. These are all the round
  changes that the algorithm returns.
\<close>

theorem decision_never_with_round_skip:
  "(roundChange (ReceiveMessage orc a cm) = Some rc \<and> Decision rc \<noteq> None \<longrightarrow> rcRound rc = 0)
   \<and> (fired (ReceiveMessage orc a cm) = Line55 \<longrightarrow>
        roundChange (ReceiveMessage orc a cm) = Some \<lparr>rcRound = Round cm, Decision = None\<rparr>)
   \<and> (OnTimeoutPrecommit orc a h rnd = Some rc' \<longrightarrow> Decision rc' = None)"
  using decision_round_0 line55_no_decision timeout_no_decision by blast

theorem decision_never_with_round_skip_witness:
  "roundChange (ReceiveMessage deciding_oracle started precommit7)
     = Some \<lparr>rcRound = 0, Decision = Some proposal0\<rparr>
   \<and> fired (ReceiveMessage skipping_oracle started precommit_r5) = Line55
   \<and> roundChange (ReceiveMessage skipping_oracle started precommit_r5)
       = Some \<lparr>rcRound = 5, Decision = None\<rparr>
   \<and> OnTimeoutPrecommit quiet_oracle started 11 0 = Some \<lparr>rcRound = 1, Decision = None\<rparr>
   \<and> Decision \<lparr>rcRound = 1, Decision = None\<rparr> = None"
  using decision_never_with_round_skip
      [of deciding_oracle started precommit7 "\<lparr>rcRound = 0, Decision = Some proposal0\<rparr>"
          11 0 "\<lparr>rcRound = 1, Decision = None\<rparr>"]
    decision_never_with_round_skip
      [of skipping_oracle started precommit_r5 "\<lparr>rcRound = 5, Decision = None\<rparr>"
          11 0 "\<lparr>rcRound = 1, Decision = None\<rparr>"]
  by (simp add: ReceiveMessage_def conds bodies deciding_oracle_def skipping_oracle_def
      quiet_oracle_def started_def precommit7_def precommit_r5_def proposal0_def
      OnTimeoutPrecommit_def height_def steps word_sless_alt word_sle_eq)

subsection \<open>The one-shot latches\<close>

lemma latched36: "line36Executed a \<Longrightarrow> fired (ReceiveMessage orc a cm) \<noteq> Line36"
  by (simp add: ReceiveMessage_def bodies Let_def cond36_def)

lemma latched34: "line34Executed a \<Longrightarrow> fired (ReceiveMessage orc a cm) \<noteq> Line34"
  by (simp add: ReceiveMessage_def bodies Let_def cond34_def)

lemma latched47: "line47Executed a \<Longrightarrow> fired (ReceiveMessage orc a cm) \<noteq> Line47"
  by (simp add: ReceiveMessage_def bodies Let_def cond47_def)

lemma keeps36: "line36Executed a \<Longrightarrow> line36Executed (alg (ReceiveMessage orc a cm))"
  by (simp add: ReceiveMessage_def bodies Let_def)

lemma keeps34: "line34Executed a \<Longrightarrow> line34Executed (alg (ReceiveMessage orc a cm))"
  by (simp add: ReceiveMessage_def bodies Let_def)

lemma keeps47: "line47Executed a \<Longrightarrow> line47Executed (alg (ReceiveMessage orc a cm))"
  by (simp add: ReceiveMessage_def bodies Let_def)

lemma sets36:
  "fired (ReceiveMessage orc a cm) = Line36 \<Longrightarrow> line36Executed (alg (ReceiveMessage orc a cm))"
  by (drule fired36_body) (simp add: body36_def Let_def)

lemma sets34:
  "fired (ReceiveMessage orc a cm) = Line34 \<Longrightarrow> line34Executed (alg (ReceiveMessage orc a cm))"
  by (drule fired34_body) (simp add: body34_def Let_def)

lemma sets47:
  "fired (ReceiveMessage orc a cm) = Line47 \<Longrightarrow> line47Executed (alg (ReceiveMessage orc a cm))"
  by (drule fired47_body) (simp add: body47_def Let_def)

lemma timeouts_keep_latches:
  "line34Executed (fst (OnTimeoutPropose orc a h r)) = line34Executed a"
  "line36Executed (fst (OnTimeoutPropose orc a h r)) = line36Executed a"
  "line47Executed (fst (OnTimeoutPropose orc a h r)) = line47Executed a"
  "line34Executed (fst (OnTimeoutPrevote orc a h r)) = line34Executed a"
  "line36Executed (fst (OnTimeoutPrevote orc a h r)) = line36Executed a"
  "line47Executed (fst (OnTimeoutPrevote orc a h r)) = line47Executed a"
  by (simp_all add: OnTimeoutPropose_def OnTimeoutPrevote_def Let_def)

lemma StartRound_resets:
  "StartRound orc a rnd = Inr (a', res) \<Longrightarrow>
     \<not> line34Executed a' \<and> \<not> line36Executed a' \<and> \<not> line47Executed a'"
  by (auto simp add: StartRound_def Let_def split: if_splits sum.splits)

text \<open>The outcomes by which the three rules are seen from outside.\<close>

lemma fired36_outcome:
  "fired (ReceiveMessage orc a cm) = Line36 \<Longrightarrow>
     \<exists>m. message (ReceiveMessage orc a cm) = Some m \<and> MsgType m = Precommit
          \<and> Valid orc (Value m) \<and> PrevoteQThresh orc (round a) (Some (Value m))"
  by (drule fired36_body) (simp add: body36_def cond36_def Let_def msg_def)

lemma fired34_outcome:
  "fired (ReceiveMessage orc a cm) = Line34 \<longleftrightarrow>
     (\<exists>t. scheduled (ReceiveMessage orc a cm) = Some t \<and> TimeoutType t = Prevote)"
  by (simp add: ReceiveMessage_def bodies Let_def timeout_def steps)

lemma fired47_outcome:
  "fired (ReceiveMessage orc a cm) = Line47 \<longleftrightarrow>
     (\<exists>t. scheduled (ReceiveMessage orc a cm) = Some t \<and> TimeoutType t = Precommit)"
  by (simp add: ReceiveMessage_def bodies Let_def timeout_def steps)

lemma none36: "line36Executed a \<Longrightarrow> count_list (run_round a calls) Line36 = 0"
  by (induction a calls rule: run_round.induct)
     (simp_all add: latched36 keeps36 timeouts_keep_latches)

lemma none34: "line34Executed a \<Longrightarrow> count_list (run_round a calls) Line34 = 0"
  by (induction a calls rule: run_round.induct)
     (simp_all add: latched34 keeps34 timeouts_keep_latches)

lemma none47: "line47Executed a \<Longrightarrow> count_list (run_round a calls) Line47 = 0"
  by (induction a calls rule: run_round.induct)
     (simp_all add: latched47 keeps47 timeouts_keep_latches)

lemma once36: "count_list (run_round a calls) Line36 \<le> 1"
  by (induction a calls rule: run_round.induct) (simp_all add: none36 sets36)

lemma once34: "count_list (run_round a calls) Line34 \<le> 1"
  by (induction a calls rule: run_round.induct) (simp_all add: none34 sets34)

lemma once47: "count_list (run_round a calls) Line47 \<le> 1"
  by (induction a calls rule: run_round.induct) (simp_all add: none47 sets47)

text \<open>
  Claim C8: in the calls of one round, whatever the algorithm at the start of the round
  (after \<^verbatim>\<open>StartRound\<close> the three latches are clear, see \<open>StartRound_resets\<close>), whatever
  the messages and timeouts and whatever the oracle answers at each call, Line 36,
  Line 34 and Line 47 each fire at most once.
\<close>

theorem latches_fire_once_per_round:
  "count_list (run_round a calls) Line36 \<le> 1
   \<and> count_list (run_round a calls) Line34 \<le> 1
   \<and> count_list (run_round a calls) Line47 \<le> 1"
  using once36 once34 once47 by blast

theorem latches_fire_once_per_round_witness:
  "StartRound quiet_oracle (New 1) 0 = Inr (started, None, Some (timeout quiet_oracle started Propose), None)
   \<and> run_round started round0_calls = [Line34, NoMatch, Line36, NoMatch, Line47, NoMatch]
   \<and> count_list (run_round started round0_calls) Line36 \<le> 1
   \<and> count_list (run_round started round0_calls) Line34 \<le> 1
   \<and> count_list (run_round started round0_calls) Line47 \<le> 1"
  using latches_fire_once_per_round [of started round0_calls]
  by (simp add: round0_calls_def ReceiveMessage_def conds bodies OnTimeoutPropose_def
      some_votes_def prevotes_for_7_def started_def prevote7_def precommit7_def proposal0_def
      StartRound_def New_def quiet_oracle_def timeout_def
      height_def steps NilValue_def Let_def word_sless_alt word_sle_eq)

section \<open>Properties of the message store\<close>

subsection \<open>Save\<close>

lemma lookup_Some:
  "lookup ms h r c s = Some p \<longleftrightarrow>
     (\<exists>rm tm am. ms h = Some rm \<and> rm r = Some tm \<and> tm c = Some am \<and> am s = Some p)"
  by (simp add: lookup_def split: option.splits)

lemma Save_present:
  assumes "lookup ms (Uint64 (fst (mHeight m))) (fst (mRound m)) (Code m) (Address m) = Some p"
  shows "Save hash ms m =
           (if hash (mPayload p) \<noteq> hash (mPayload m)
            then (ms, Some p, Some errEquivocation) else (ms, None, None))"
proof -
  from assms obtain rm tm am where
    "ms (Uint64 (fst (mHeight m))) = Some rm" "rm (fst (mRound m)) = Some tm"
    "tm (Code m) = Some am" "am (Address m) = Some p"
    unfolding lookup_Some by blast
  then show ?thesis
    by (simp add: Save_def Let_def map_upd_triv)
qed

lemma Save_absent_result:
  assumes "lookup ms (Uint64 (fst (mHeight m))) (fst (mRound m)) (Code m) (Address m) = None"
  shows "snd (Save hash ms m) = (None, None)"
  using assms by (simp add: Save_def Let_def lookup_def split: option.splits)

lemma Save_absent_lookup:
  assumes "lookup ms (Uint64 (fst (mHeight m))) (fst (mRound m)) (Code m) (Address m) = None"
  shows "lookup (fst (Save hash ms m)) h r c s =
           (if h = Uint64 (fst (mHeight m)) \<and> r = fst (mRound m) \<and> c = Code m \<and> s = Address m
            then Some m else lookup ms h r c s)"
  using assms by (simp add: Save_def Let_def lookup_def split: option.splits)

lemma Save_twice:
  assumes "snd (Save hash ms m) = (None, None)"
  shows "Save hash (fst (Save hash ms m)) m = (fst (Save hash ms m), None, None)"
proof (cases "lookup ms (Uint64 (fst (mHeight m))) (fst (mRound m)) (Code m) (Address m)")
  case None
  then have "lookup (fst (Save hash ms m)) (Uint64 (fst (mHeight m))) (fst (mRound m))
               (Code m) (Address m) = Some m"
    by (simp add: Save_absent_lookup)
  then show ?thesis
    by (simp add: Save_present)
next
  case (Some p)
  with assms have "Save hash ms m = (ms, None, None)"
    by (simp add: Save_present split: if_splits)
  then show ?thesis by simp
qed

text \<open>
  Claim C6: \<^verbatim>\<open>Save(m)\<close>, for the key of \<open>m\<close> (height, round, code, sender). With no
  message at the key, \<open>m\<close> is stored there, no other key changes, and the result is
  (none, ok). With a message of the same payload hash at the key, the store is unchanged
  and the result is (none, ok). With a message of another payload hash at the key, the
  store is unchanged and the result is that message with \<open>errEquivocation\<close>. Hence a
  second \<^verbatim>\<open>Save(m)\<close> after one that returned (none, ok) leaves the store as the first
  left it and returns (none, ok).
\<close>

theorem Save_first_message_wins:
  "(lookup ms (Uint64 (fst (mHeight m))) (fst (mRound m)) (Code m) (Address m) = None \<longrightarrow>
      snd (Save hash ms m) = (None, None)
      \<and> lookup (fst (Save hash ms m)) h r c s =
          (if h = Uint64 (fst (mHeight m)) \<and> r = fst (mRound m) \<and> c = Code m \<and> s = Address m
           then Some m else lookup ms h r c s))
   \<and> (lookup ms (Uint64 (fst (mHeight m))) (fst (mRound m)) (Code m) (Address m) = Some p
        \<and> hash (mPayload p) = hash (mPayload m) \<longrightarrow>
      Save hash ms m = (ms, None, None))
   \<and> (lookup ms (Uint64 (fst (mHeight m))) (fst (mRound m)) (Code m) (Address m) = Some p
        \<and> hash (mPayload p) \<noteq> hash (mPayload m) \<longrightarrow>
      Save hash ms m = (ms, Some p, Some errEquivocation))
   \<and> (snd (Save hash ms m) = (None, None) \<longrightarrow>
      Save hash (fst (Save hash ms m)) m = (fst (Save hash ms m), None, None))"
  using Save_absent_result [of ms m hash] Save_absent_lookup [of ms m hash h r c s]
    Save_present [of ms m p hash] Save_twice [of hash ms m]
  by simp

lemma store_a_lookup:
  "lookup store_a h r c s = (if h = 11 \<and> r = 0 \<and> c = MsgPrevote \<and> s = 1 then Some vote_a else None)"
  by (simp add: store_a_def newMsgStore_def Save_def Let_def lookup_def vote_a_def Uint64_def)

theorem Save_first_message_wins_witness:
  "lookup newMsgStore 11 0 MsgPrevote 1 = None
   \<and> Save first_byte newMsgStore vote_a = (store_a, None, None)
   \<and> lookup store_a 11 0 MsgPrevote 1 = Some vote_a
   \<and> first_byte (mPayload vote_a) = first_byte (mPayload vote_a)
   \<and> Save first_byte store_a vote_a = (store_a, None, None)
   \<and> first_byte (mPayload vote_a) \<noteq> first_byte (mPayload vote_b)
   \<and> Save first_byte store_a vote_b = (store_a, Some vote_a, Some errEquivocation)"
  using Save_first_message_wins [where ms = newMsgStore and m = vote_a and hash = first_byte
        and h = 11 and r = 0 and c = MsgPrevote and s = 1 and p = vote_a]
    Save_first_message_wins [where ms = store_a and m = vote_a and hash = first_byte
        and h = 11 and r = 0 and c = MsgPrevote and s = 1 and p = vote_a]
    Save_first_message_wins [where ms = store_a and m = vote_b and hash = first_byte
        and h = 11 and r = 0 and c = MsgPrevote and s = 1 and p = vote_a]
  by (simp add: store_a_lookup)
     (simp add: store_a_def newMsgStore_def lookup_def vote_a_def vote_b_def Uint64_def
        first_byte_def prod_eq_iff)

subsection \<open>Get\<close>

lemma set_map_filter_range:
  "range_order m ks \<Longrightarrow> set (List.map_filter m ks) = ran m"
  by (force simp add: range_order_def List.map_filter_def ran_def dom_def image_iff)

lemma in_concat_map: "k \<in> set ks \<Longrightarrow> x \<in> set (f k) \<Longrightarrow> x \<in> set (concat (map f ks))"
  by auto

lemma mset_concat_map_cong:
  assumes "mset ks = mset ks'"
    and "\<And>k. k \<in> set ks \<Longrightarrow> mset (f k) = mset (g k)"
  shows "mset (concat (map f ks)) = mset (concat (map g ks'))"
proof -
  have "mset (concat (map f ks)) = sum_mset (image_mset (\<lambda>k. mset (f k)) (mset ks))"
    by (simp add: mset_concat sum_mset_sum_list [symmetric] comp_def)
  also have "\<dots> = sum_mset (image_mset (\<lambda>k. mset (g k)) (mset ks))"
    using assms(2) by (intro arg_cong [where f = sum_mset] image_mset_cong) simp
  also have "\<dots> = mset (concat (map g ks'))"
    by (simp add: assms(1) mset_concat sum_mset_sum_list [symmetric] comp_def)
  finally show ?thesis .
qed

lemma range_order_mset:
  "range_order m ks \<Longrightarrow> range_order m ks' \<Longrightarrow> mset ks = mset ks'"
  by (simp add: range_order_def set_eq_iff_mset_eq_distinct [symmetric])

lemma mset_map_filter_cong:
  "mset ks = mset ks' \<Longrightarrow> mset (List.map_filter f ks) = mset (List.map_filter f ks')"
  by (simp add: List.map_filter_def)

lemma Get_set:
  assumes "valid_order ord ms h"
  shows "set (Get ord ms h query) = {m. query m \<and> (\<exists>r c s. lookup ms h r c s = Some m)}"
proof (cases "ms h")
  case None
  then show ?thesis by (simp add: Get_def lookup_def)
next
  case (Some roundMap)
  with assms have rm: "range_order roundMap (rounds ord)"
    and tm: "\<And>r msgTypeMap. roundMap r = Some msgTypeMap \<Longrightarrow>
               range_order msgTypeMap (codes ord r)"
    and am: "\<And>r msgTypeMap c addressMap.
               roundMap r = Some msgTypeMap \<Longrightarrow> msgTypeMap c = Some addressMap \<Longrightarrow>
               range_order addressMap (senders ord r c)"
    by (auto simp add: valid_order_def)
  show ?thesis
  proof (intro set_eqI iffI)
    fix m
    assume "m \<in> set (Get ord ms h query)"
    then obtain r msgTypeMap c addressMap where
      "roundMap r = Some msgTypeMap" "msgTypeMap c = Some addressMap"
      "m \<in> set (List.map_filter addressMap (senders ord r c))" "query m"
      using Some by (auto simp add: Get_def split: option.splits) metis
    moreover from this have "m \<in> ran addressMap"
      using am set_map_filter_range by blast
    ultimately show "m \<in> {m. query m \<and> (\<exists>r c s. lookup ms h r c s = Some m)}"
      using Some by (fastforce simp add: lookup_Some ran_def)
  next
    fix m
    assume "m \<in> {m. query m \<and> (\<exists>r c s. lookup ms h r c s = Some m)}"
    then obtain r msgTypeMap c addressMap s where *:
      "roundMap r = Some msgTypeMap" "msgTypeMap c = Some addressMap"
      "addressMap s = Some m" "query m"
      using Some by (auto simp add: lookup_Some)
    then have r_in: "r \<in> set (rounds ord)" and c_in: "c \<in> set (codes ord r)"
      using rm tm by (auto simp add: range_order_def)
    have "m \<in> set (List.map_filter addressMap (senders ord r c))"
      using * am set_map_filter_range [of addressMap] by (auto simp add: ran_def)
    then have "m \<in> set (concat (map (\<lambda>c. case msgTypeMap c of None \<Rightarrow> []
                  | Some addressMap \<Rightarrow>
                      filter query (List.map_filter addressMap (senders ord r c)))
                (codes ord r)))"
      using * by (intro in_concat_map [OF c_in]) simp
    then have "m \<in> set (concat (map (\<lambda>r. case roundMap r of None \<Rightarrow> []
                  | Some msgTypeMap \<Rightarrow>
                      concat (map (\<lambda>c. case msgTypeMap c of None \<Rightarrow> []
                          | Some addressMap \<Rightarrow>
                              filter query (List.map_filter addressMap (senders ord r c)))
                        (codes ord r)))
                (rounds ord)))"
      using * by (intro in_concat_map [OF r_in]) simp
    then show "m \<in> set (Get ord ms h query)"
      using Some by (simp add: Get_def)
  qed
qed

lemma Get_mset:
  assumes "valid_order ord ms h" and "valid_order ord' ms h"
  shows "mset (Get ord ms h query) = mset (Get ord' ms h query)"
proof (cases "ms h")
  case None
  then show ?thesis by (simp add: Get_def)
next
  case (Some roundMap)
  have inner: "mset (case msgTypeMap c of None \<Rightarrow> []
                     | Some addressMap \<Rightarrow>
                         filter query (List.map_filter addressMap (senders ord r c)))
             = mset (case msgTypeMap c of None \<Rightarrow> []
                     | Some addressMap \<Rightarrow>
                         filter query (List.map_filter addressMap (senders ord' r c)))"
    if "roundMap r = Some msgTypeMap" for r msgTypeMap c
  proof (cases "msgTypeMap c")
    case None
    then show ?thesis by simp
  next
    case (Some addressMap)
    with that \<open>ms h = Some roundMap\<close> assms
    have "range_order addressMap (senders ord r c)" "range_order addressMap (senders ord' r c)"
      by (auto simp add: valid_order_def)
    then have "mset (senders ord r c) = mset (senders ord' r c)"
      by (rule range_order_mset)
    then have "mset (List.map_filter addressMap (senders ord r c))
             = mset (List.map_filter addressMap (senders ord' r c))"
      by (rule mset_map_filter_cong)
    then show ?thesis using Some by simp
  qed
  have middle: "mset (case roundMap r of None \<Rightarrow> []
                      | Some msgTypeMap \<Rightarrow>
                          concat (map (\<lambda>c. case msgTypeMap c of None \<Rightarrow> []
                            | Some addressMap \<Rightarrow>
                                filter query (List.map_filter addressMap (senders ord r c)))
                            (codes ord r)))
              = mset (case roundMap r of None \<Rightarrow> []
                      | Some msgTypeMap \<Rightarrow>
                          concat (map (\<lambda>c. case msgTypeMap c of None \<Rightarrow> []
                            | Some addressMap \<Rightarrow>
                                filter query (List.map_filter addressMap (senders ord' r c)))
                            (codes ord' r)))" for r
  proof (cases "roundMap r")
    case None
    then show ?thesis by simp
  next
    case (Some msgTypeMap)
    with \<open>ms h = Some roundMap\<close> assms
    have "range_order msgTypeMap (codes ord r)" "range_order msgTypeMap (codes ord' r)"
      by (auto simp add: valid_order_def)
    then have codes_eq: "mset (codes ord r) = mset (codes ord' r)"
      by (rule range_order_mset)
    show ?thesis
      unfolding Some option.case
      by (rule mset_concat_map_cong [OF codes_eq]) (rule inner [OF Some])
  qed
  from Some assms have "range_order roundMap (rounds ord)" "range_order roundMap (rounds ord')"
    by (auto simp add: valid_order_def)
  then have rounds_eq: "mset (rounds ord) = mset (rounds ord')"
    by (rule range_order_mset)
  show ?thesis
    unfolding Get_def Some option.case
    by (rule mset_concat_map_cong [OF rounds_eq]) (rule middle)
qed

lemma store_a_r1_rounds:
  "store_a_r1 h =
     (if h = 11
      then Some [0 \<mapsto> [MsgPrevote \<mapsto> [1 \<mapsto> vote_a]], 1 \<mapsto> [MsgPrevote \<mapsto> [1 \<mapsto> vote_r1]]]
      else None)"
  by (simp add: store_a_r1_def store_a_def newMsgStore_def Save_def Let_def vote_a_def
      vote_r1_def Uint64_def)

lemma valid_upwards: "valid_order upwards store_a_r1 11"
  by (auto simp add: valid_order_def range_order_def store_a_r1_rounds upwards_def
      split: if_splits)

lemma valid_downwards: "valid_order downwards store_a_r1 11"
  by (auto simp add: valid_order_def range_order_def store_a_r1_rounds downwards_def
      split: if_splits)

lemma Get_upwards: "Get upwards store_a_r1 11 (\<lambda>m. True) = [vote_a, vote_r1]"
  by (simp add: Get_def store_a_r1_rounds upwards_def)

lemma Get_downwards: "Get downwards store_a_r1 11 (\<lambda>m. True) = [vote_r1, vote_a]"
  by (simp add: Get_def store_a_r1_rounds downwards_def)

text \<open>
  Claim C7 as stated fails. The store holds a prevote of round 0 and one of round 1 at
  height 11, both saved with \<^verbatim>\<open>Save\<close>. Both orders below are orders in which the loops
  of \<^verbatim>\<open>Get\<close> can visit the maps of this store. With one of them \<^verbatim>\<open>Get\<close> returns the
  message of round 1 before that of round 0, and the two orders give two different
  sequences for the same store and query.
\<close>

theorem Get_order_counterexample:
  "valid_order upwards store_a_r1 11 \<and> valid_order downwards store_a_r1 11
   \<and> Get downwards store_a_r1 11 (\<lambda>m. True) = [vote_r1, vote_a]
   \<and> map (\<lambda>m. fst (mRound m)) (Get downwards store_a_r1 11 (\<lambda>m. True)) = [1, 0]
   \<and> Get upwards store_a_r1 11 (\<lambda>m. True) \<noteq> Get downwards store_a_r1 11 (\<lambda>m. True)"
  by (simp add: valid_upwards valid_downwards Get_upwards Get_downwards)
     (simp add: vote_a_def vote_r1_def)

text \<open>
  Claim C7 as amended: in whatever order the loops of \<^verbatim>\<open>Get\<close> visit the maps, the
  result holds exactly the messages stored at the height that satisfy the query; and two
  calls on the same store with the same query return the same messages the same number
  of times, in orders that may differ.
\<close>

theorem Get_all_matching_any_order:
  assumes "valid_order ord ms h" and "valid_order ord' ms h"
  shows "set (Get ord ms h query) = {m. query m \<and> (\<exists>r c s. lookup ms h r c s = Some m)}
         \<and> mset (Get ord ms h query) = mset (Get ord' ms h query)"
  by (rule conjI [OF Get_set [OF assms(1)] Get_mset [OF assms]])

theorem Get_all_matching_any_order_witness:
  "valid_order downwards store_a_r1 11 \<and> valid_order upwards store_a_r1 11
   \<and> set (Get downwards store_a_r1 11 (\<lambda>m. True))
       = {m. True \<and> (\<exists>r c s. lookup store_a_r1 11 r c s = Some m)}
   \<and> set (Get downwards store_a_r1 11 (\<lambda>m. True)) = {vote_a, vote_r1}
   \<and> mset (Get downwards store_a_r1 11 (\<lambda>m. True)) = mset (Get upwards store_a_r1 11 (\<lambda>m. True))"
  using Get_all_matching_any_order [OF valid_downwards valid_upwards, of "\<lambda>m. True"]
  by (simp add: valid_upwards valid_downwards) (auto simp add: Get_downwards)

section \<open>Properties of the fault detector\<close>

subsection \<open>Voting power\<close>

lemma powerOfVotes_loop_skips: "powerOfVotes_loop pwr votes = pwr"
  by (induction votes arbitrary: pwr) (auto simp add: MsgPrevote_def MsgPrecommit_def)

lemma powerOfVotes_zero: "powerOfVotes votes = 0"
  by (simp add: powerOfVotes_def powerOfVotes_loop_skips)

text \<open>
  Claim C1, at an input where the code departs from it: a list of two prevotes, each of
  voting power 1. The claim asks for the sum 2; \<^verbatim>\<open>powerOfVotes\<close> returns 0. The test
  \<^verbatim>\<open>Type() != MsgPrevote || Type() != MsgPrecommit\<close> holds for every message, so every
  message is skipped (\<open>powerOfVotes_zero\<close>).
\<close>

theorem powerOfVotes_skips_prevotes:
  "mType vote_a = MsgPrevote \<and> mPower vote_a = 1
   \<and> mType vote_r1 = MsgPrevote \<and> mPower vote_r1 = 1
   \<and> powerOfVotes [vote_a, vote_r1] = 0"
  by (simp add: powerOfVotes_def vote_a_def vote_r1_def MsgPrevote_def MsgPrecommit_def)

subsection \<open>Rules\<close>

lemma appendPayloads_map: "appendPayloads evidence proofs = evidence @ map mPayload proofs"
  by (induction proofs arbitrary: evidence) simp_all

lemma generateOnChainProof_encoded:
  assumes "enc \<lparr>Rule = rule, rpMessage = mPayload m, Evidence = map mPayload proofs\<rparr> = Inr rp"
  shows "generateOnChainProof enc hash m proofs rule =
           (\<lparr>Sender = Address m, Msghash = hash (mPayload m), Rawproof = rp\<rparr>, None)"
  using assms by (simp add: generateOnChainProof_def Let_def appendPayloads_map)

lemma generateOnChainProof_failed:
  assumes "enc \<lparr>Rule = rule, rpMessage = mPayload m, Evidence = map mPayload proofs\<rparr> = Inl err"
  shows "generateOnChainProof enc hash m proofs rule =
           (\<lparr>Sender = Address m, Msghash = hash (mPayload m), Rawproof = []\<rparr>, Some err)"
  using assms by (simp add: generateOnChainProof_def Let_def appendPayloads_map)

text \<open>
  Claim C4 as stated fails: none of the ten rules has the number that the claim gives
  it, and the rule that \<^verbatim>\<open>errorToRule\<close> gives for an equivocation is 9, not 10.
\<close>

theorem Rule_numbers_counterexample:
  "PN \<noteq> 1 \<and> PO \<noteq> 2 \<and> PVN \<noteq> 3 \<and> PVO \<noteq> 4 \<and> C \<noteq> 5 \<and> C1 \<noteq> 6
   \<and> GarbageMessage \<noteq> 7 \<and> InvalidProposal \<noteq> 8 \<and> InvalidProposer \<noteq> 9
   \<and> Equivocation \<noteq> 10
   \<and> unat (fst (errorToRule errEquivocation)) = 9"
  by (simp add: PN_def PO_def PVN_def PVO_def C_def C1_def GarbageMessage_def
      InvalidProposal_def InvalidProposer_def Equivocation_def errorToRule_def)

text \<open>
  Claim C4 as amended: the rules are numbered from 0, PN=0, PO=1, PVN=2, PVO=3, C=4,
  C1=5, GarbageMessage=6, InvalidProposal=7, InvalidProposer=8, Equivocation=9 (and
  UnknownRule=10), and the four errors that are misbehaviours of their own map to the
  rules named after them. The raw proof that \<^verbatim>\<open>generateOnChainProof\<close> hands to the
  encoder has the rule it is made for, the payload of the message and the payloads of
  the proofs; the envelope holds what the encoder returns for it, and no raw proof at
  all, with the error returned, when the encoder fails.
\<close>

theorem Rule_numbers:
  "unat PN = 0 \<and> unat PO = 1 \<and> unat PVN = 2 \<and> unat PVO = 3 \<and> unat C = 4 \<and> unat C1 = 5
   \<and> unat GarbageMessage = 6 \<and> unat InvalidProposal = 7 \<and> unat InvalidProposer = 8
   \<and> unat Equivocation = 9 \<and> unat UnknownRule = 10
   \<and> errorToRule errGarbageMsg = (GarbageMessage, None)
   \<and> errorToRule errProposal = (InvalidProposal, None)
   \<and> errorToRule errProposer = (InvalidProposer, None)
   \<and> errorToRule errEquivocation = (Equivocation, None)
   \<and> (enc \<lparr>Rule = rule, rpMessage = mPayload m, Evidence = map mPayload proofs\<rparr> = Inr rp \<longrightarrow>
        generateOnChainProof enc hash m proofs rule =
          (\<lparr>Sender = Address m, Msghash = hash (mPayload m), Rawproof = rp\<rparr>, None))
   \<and> (enc \<lparr>Rule = rule, rpMessage = mPayload m, Evidence = map mPayload proofs\<rparr> = Inl err \<longrightarrow>
        generateOnChainProof enc hash m proofs rule =
          (\<lparr>Sender = Address m, Msghash = hash (mPayload m), Rawproof = []\<rparr>, Some err))"
  using generateOnChainProof_encoded [of enc rule m proofs rp hash]
    generateOnChainProof_failed [of enc rule m proofs err hash]
  by (simp add: PN_def PO_def PVN_def PVO_def C_def C1_def GarbageMessage_def
      InvalidProposal_def InvalidProposer_def Equivocation_def UnknownRule_def
      errorToRule_def)

theorem Rule_numbers_witness:
  "rule_first_encoder \<lparr>Rule = Equivocation, rpMessage = mPayload vote_b,
                         Evidence = map mPayload [vote_a]\<rparr> = Inr [9, 2, 1]
   \<and> generateOnChainProof rule_first_encoder first_byte vote_b [vote_a] Equivocation =
       (\<lparr>Sender = 1, Msghash = 2, Rawproof = [9, 2, 1]\<rparr>, None)
   \<and> failing_encoder \<lparr>Rule = Equivocation, rpMessage = mPayload vote_b,
                        Evidence = map mPayload [vote_a]\<rparr> = Inl (errOther ''encoding failed'')
   \<and> generateOnChainProof failing_encoder first_byte vote_b [vote_a] Equivocation =
       (\<lparr>Sender = 1, Msghash = 2, Rawproof = []\<rparr>, Some (errOther ''encoding failed''))"
  using Rule_numbers [where enc = rule_first_encoder and rule = Equivocation and m = vote_b
        and proofs = "[vote_a]" and rp = "[9, 2, 1]" and hash = first_byte
        and err = "errOther ''encoding failed''"]
    Rule_numbers [where enc = failing_encoder and rule = Equivocation and m = vote_b
        and proofs = "[vote_a]" and rp = "[9, 2, 1]" and hash = first_byte
        and err = "errOther ''encoding failed''"]
  by (simp add: rule_first_encoder_def failing_encoder_def Equivocation_def vote_a_def
      vote_b_def first_byte_def)

subsection \<open>Future messages\<close>

lemma Cmp_at_most_1: "Cmp x y \<le> 1"
  by (simp add: Cmp_def)

lemma checkMsgSignature_never_future:
  "snd (mHeight m) = None \<Longrightarrow> checkMsgSignature chain m \<noteq> Some errFutureMsg"
  using Cmp_at_most_1 [of "fst (mHeight m)" "CurrentHeaderNumber chain"]
  by (cases "mHeight m") (auto simp add: checkMsgSignature_def)

text \<open>
  Claim C3, at an input where the code departs from it: the head of the chain is block
  5 and the message is a prevote for height 11. The claim asks for the future-message
  error and for the message to be buffered. \<^verbatim>\<open>Cmp\<close> returns 1, which is not above 1,
  so \<^verbatim>\<open>checkMsgSignature\<close> goes on to validate the signature. Where the signature is
  accepted, \<^verbatim>\<open>checkMsgSignature\<close> returns no error and \<^verbatim>\<open>processMsg\<close> saves the
  message in the store; where it is rejected, both return \<open>errNotCommitteeMsg\<close> and
  the message is dropped. Either way nothing is buffered. No message whose height can be
  read gets the future-message error from \<^verbatim>\<open>checkMsgSignature\<close>
  (\<open>checkMsgSignature_never_future\<close>).
\<close>

theorem future_message_not_buffered:
  "CurrentHeaderNumber chain_at_5 + 1 < fst (mHeight vote_a)
   \<and> Cmp (fst (mHeight vote_a)) (CurrentHeaderNumber chain_at_5) = 1
   \<and> checkMsgSignature chain_at_5 vote_a = None
   \<and> snd (processMsg chain_at_5 new_detector vote_a) = None
   \<and> futureMsgs (fst (processMsg chain_at_5 new_detector vote_a)) = Map.empty
   \<and> lookup (msgStore (fst (processMsg chain_at_5 new_detector vote_a))) 11 0 MsgPrevote 1
       = Some vote_a
   \<and> CurrentHeaderNumber chain_at_5_rejecting + 1 < fst (mHeight vote_a)
   \<and> checkMsgSignature chain_at_5_rejecting vote_a = Some errNotCommitteeMsg
   \<and> processMsg chain_at_5_rejecting new_detector vote_a
       = (new_detector, Some errNotCommitteeMsg)
   \<and> futureMsgs new_detector = Map.empty"
  by (simp add: processMsg_def checkMsgSignature_def checkAutoIncriminatingMsg_def
      decodeVote_def Cmp_def chain_at_5_def chain_at_5_rejecting_def new_detector_def
      vote_a_def Let_def Save_def newMsgStore_def lookup_def Uint64_def MsgProposal_def
      MsgPrevote_def MsgPrecommit_def)

subsection \<open>Replaying the buffer\<close>

lemma buffered_bufferMsg: "prefix (buffered fd k) (buffered (bufferMsg fd m) k)"
  by (cases "mHeight m") (auto simp add: bufferMsg_def buffered_def split: option.splits)

lemma futureMsgs_submitMisbehavior [simp]:
  "futureMsgs (submitMisbehavior chain fd m proofs err) = futureMsgs fd"
  by (simp add: submitMisbehavior_def sendProofs_def Let_def)

lemma buffered_cong: "futureMsgs fd' = futureMsgs fd \<Longrightarrow> buffered fd' k = buffered fd k"
  by (simp add: buffered_def)

lemma futureMsgs_processMsg:
  "futureMsgs (fst (processMsg chain fd m)) = futureMsgs fd
   \<or> futureMsgs (fst (processMsg chain fd m)) = futureMsgs (bufferMsg fd m)"
  by (simp add: processMsg_def Let_def split: option.splits)

lemma buffered_processMsg: "prefix (buffered fd k) (buffered (fst (processMsg chain fd m)) k)"
  using futureMsgs_processMsg [of chain fd m] buffered_bufferMsg [of fd k m]
  by (auto simp add: buffered_def)

lemma buffered_processMsgs: "prefix (buffered fd k) (buffered (processMsgs chain fd msgs) k)"
proof (induction msgs arbitrary: fd)
  case Nil
  show ?case by simp
next
  case (Cons m msgs)
  have "prefix (buffered fd k) (buffered (fst (processMsg chain fd m)) k)"
    by (rule buffered_processMsg)
  also have "prefix \<dots> (buffered (processMsgs chain (fst (processMsg chain fd m)) msgs) k)"
    by (rule Cons.IH)
  finally show ?case by simp
qed

lemma buffered_processBuffers: "prefix (buffered fd k) (buffered (processBuffers chain fd ks) k)"
proof (induction ks arbitrary: fd)
  case Nil
  show ?case by simp
next
  case (Cons k' ks)
  show ?case
  proof (cases "futureMsgs fd k'")
    case None
    then show ?thesis using Cons.IH [of fd] by simp
  next
    case (Some msgs)
    have "prefix (buffered fd k) (buffered (processMsgs chain fd msgs) k)"
      by (rule buffered_processMsgs)
    also have "prefix \<dots> (buffered (processBuffers chain (processMsgs chain fd msgs) ks) k)"
      by (rule Cons.IH)
    finally show ?thesis using Some by simp
  qed
qed

text \<open>The height that \<^verbatim>\<open>processBufferedMsgs\<close> is called with has no effect.\<close>

lemma processBufferedMsgs_ignores_height:
  "processBufferedMsgs chain ord fd hgt = processBufferedMsgs chain ord fd hgt'"
  by (simp add: processBufferedMsgs_def)

lemma buffering_detector_value:
  "buffering_detector =
     \<lparr>futureMsgs = [4 \<mapsto> [proposal_h4]],
      msgStore = [4 \<mapsto> [0 \<mapsto> [MsgProposal \<mapsto> [1 \<mapsto> proposal_h4]]]],
      sentProofs = []\<rparr>"
  by (simp add: buffering_detector_def processMsg_def checkMsgSignature_def
      checkAutoIncriminatingMsg_def checkProposal_def Cmp_def chain_at_3_def
      new_detector_def proposal_h4_def Let_def bufferMsg_def
      Save_def newMsgStore_def Uint64_def MsgProposal_def first_byte_def)

text \<open>
  Claim C5 as stated fails. While the head is block 3, the fault detector receives a
  proposal for height 4 whose block is a future block, and \<^verbatim>\<open>processMsg\<close> buffers it.
  The head advances to block 10 and \<^verbatim>\<open>processBufferedMsgs(10)\<close> runs. The claim asks
  for the buffers of earlier heights to be purged; the buffer of height 4 is still
  there afterwards, with the proposal in it.
\<close>

theorem processBufferedMsgs_counterexample:
  "futureMsgs buffering_detector = [4 \<mapsto> [proposal_h4]]
   \<and> range_order (futureMsgs buffering_detector) [4]
   \<and> futureMsgs (processBufferedMsgs chain_at_10 [4] buffering_detector 10) 4
       = Some [proposal_h4]"
  by (simp add: buffering_detector_value range_order_def processBufferedMsgs_def
      processMsg_def checkMsgSignature_def checkAutoIncriminatingMsg_def checkProposal_def
      Cmp_def chain_at_10_def proposal_h4_def Let_def bufferMsg_def
      Save_def Uint64_def MsgProposal_def first_byte_def)

text \<open>
  What the loop over the buffers does: it visits the keys in order and, at each key,
  passes the messages buffered there at that moment to \<^verbatim>\<open>processMsg\<close>, one after the
  other.
\<close>

lemma processBuffers_step:
  "processBuffers chain fd (k # ks) = processBuffers chain (processMsgs chain fd (buffered fd k)) ks"
  by (simp add: buffered_def split: option.splits)

lemma processBuffers_append:
  "processBuffers chain fd (ks @ ks') = processBuffers chain (processBuffers chain fd ks) ks'"
proof (induction ks arbitrary: fd)
  case Nil
  show ?case by simp
next
  case (Cons k ks)
  show ?case
    unfolding append_Cons processBuffers_step by (rule Cons.IH)
qed

lemma processBufferedMsgs_replays:
  "processBufferedMsgs chain (ks @ k # ks') fd hgt =
     processBufferedMsgs chain ks'
       (processMsgs chain (processBufferedMsgs chain ks fd hgt)
          (buffered (processBufferedMsgs chain ks fd hgt) k)) hgt"
  unfolding processBufferedMsgs_def processBuffers_append processBuffers_step ..

text \<open>
  Claim C5 as amended. \<^verbatim>\<open>processBufferedMsgs(h)\<close> visits the buffers one after the
  other. When it comes to a buffer of a height that is at most \<open>h + 1\<close>, after the
  buffers \<open>ks\<close> and before the buffers \<open>ks'\<close>, it passes the messages of that buffer,
  in their order, to \<^verbatim>\<open>processMsg\<close> and goes on with the buffers \<open>ks'\<close>. It purges
  and drops nothing: whatever the height it is called with and the order of the visit,
  every buffer holds afterwards the messages it held before, in their order, followed
  by those that the replay has buffered again.
\<close>

theorem processBufferedMsgs_replays_and_drops_nothing:
  "(unat k \<le> unat hgt + 1 \<longrightarrow>
      processBufferedMsgs chain (ks @ k # ks') fd hgt =
        processBufferedMsgs chain ks'
          (processMsgs chain (processBufferedMsgs chain ks fd hgt)
             (buffered (processBufferedMsgs chain ks fd hgt) k)) hgt)
   \<and> prefix (buffered fd k') (buffered (processBufferedMsgs chain ord fd hgt) k')"
  using processBufferedMsgs_replays [of chain ks k ks' fd hgt]
    buffered_processBuffers [of fd k' chain ord]
  by (simp add: processBufferedMsgs_def)

theorem processBufferedMsgs_replays_and_drops_nothing_witness:
  "unat (4 :: uint64) \<le> unat (10 :: uint64) + 1
   \<and> buffered buffering_detector 4 = [proposal_h4]
   \<and> processBufferedMsgs chain_at_10 ([] @ 4 # []) buffering_detector 10 =
       fst (processMsg chain_at_10 buffering_detector proposal_h4)
   \<and> prefix (buffered buffering_detector 4)
         (buffered (processBufferedMsgs chain_at_10 [4] buffering_detector 10) 4)"
  using processBufferedMsgs_replays_and_drops_nothing
      [where k = 4 and hgt = 10 and chain = chain_at_10 and ks = "[]" and ks' = "[]"
         and fd = buffering_detector and k' = 4 and ord = "[4]"]
  by (simp add: processBufferedMsgs_def) (simp add: buffering_detector_value buffered_def)

end
